theory Spec2Isabelle
  imports Main "HOL-Library.Sublist"
begin

section \<open>The send core of gomail (send.go)\<close>

text \<open>
  A shallow embedding of \<^verbatim>\<open>send.go\<close>: the envelope derivation
  (\<^verbatim>\<open>getFrom\<close>, \<^verbatim>\<open>getRecipients\<close>, \<^verbatim>\<open>addAddress\<close>,
  \<^verbatim>\<open>parseAddress\<close>), the dispatch on the transport (\<^verbatim>\<open>send\<close>), the batch
  loop (\<^verbatim>\<open>Send\<close>), the function adapter (\<^verbatim>\<open>SendFunc\<close>) and the predicate
  \<^verbatim>\<open>IsSkipRcptErr\<close>.

  A Go \<^verbatim>\<open>error\<close> is observed by this code only through its \<^verbatim>\<open>Error()\<close> text
  (\<^verbatim>\<open>%v\<close> in \<^verbatim>\<open>fmt.Errorf\<close>, \<^verbatim>\<open>err.Error()\<close> in \<^verbatim>\<open>IsSkipRcptErr\<close>), so a
  non-nil error is its rendered text and a value of type \<^verbatim>\<open>error\<close> is an
  \<open>error option\<close>, \<open>None\<close> being \<^verbatim>\<open>nil\<close>. Text is a list of bytes, as a Go
  string is.
\<close>

subsection \<open>Data\<close>

type_synonym error = string

text \<open>
  \<^verbatim>\<open>Message\<close> is declared in another file of the package; this file reads one
  field of it, \<^verbatim>\<open>header\<close>, which its uses here show to be a Go map from a field
  name to the slice of the field's values in stored order. A key that is absent and a key bound to an empty slice are different
  map states; \<^verbatim>\<open>m.header[k]\<close> reads both as a slice of length 0, while the
  two-valued lookup \<^verbatim>\<open>v, ok := m.header[k]\<close> tells them apart.
  A batch is a list of messages: every \<^verbatim>\<open>*Message\<close> is taken to be non-nil.
\<close>

record Message =
  header :: "string \<rightharpoonup> string list"

text \<open>The result of \<^verbatim>\<open>mail.ParseAddress\<close> (Go's net/mail): \<^verbatim>\<open>mail.Address\<close>.\<close>

record Address =
  Name :: string
  Address :: string

text \<open>
  Modelled from the spec: \<^verbatim>\<open>RcptError\<close> is declared outside \<^verbatim>\<open>send.go\<close>. The
  specification gives it as a recipient address with the cause of the failed
  delivery; the cause is kept as its rendered text.
\<close>

record RcptError =
  recipient :: string
  cause :: error

type_synonym RcptErrors = "RcptError list"

text \<open>
  Modelled from the spec: \<^verbatim>\<open>RcptErrors.Rcpts()\<close> is declared outside \<^verbatim>\<open>send.go\<close>; the
  specification gives it as the ordered list, in batch order and with duplicates
  kept, of the affected addresses.
\<close>

definition Rcpts :: "RcptErrors \<Rightarrow> string list" where
  "Rcpts errs = map recipient errs"

text \<open>
  Three functions that \<^verbatim>\<open>send.go\<close> calls and does not define are parameters
  of the model:
  \<^item> \<open>mail_ParseAddress\<close>: \<^verbatim>\<open>mail.ParseAddress\<close> of net/mail, the RFC 5322 parser,
    returning the parsed address or the text of its error;
  \<^item> \<open>strconv_Quote\<close>: the rendering of a string by the verb \<^verbatim>\<open>%q\<close> of fmt, which
    is \<^verbatim>\<open>strconv.Quote\<close>;
  \<^item> \<open>RcptErrors_Error\<close>: the method \<^verbatim>\<open>RcptErrors.Error()\<close>, the rendered detail of
    a list of per-recipient errors, declared in another file of the package.
\<close>

record env =
  mail_ParseAddress :: "string \<Rightarrow> error + Address"
  strconv_Quote :: "string \<Rightarrow> string"
  RcptErrors_Error :: "RcptErrors \<Rightarrow> string"

subsection \<open>The verbs of fmt that the code uses\<close>

text \<open>\<^verbatim>\<open>%d\<close> of a non-negative \<^verbatim>\<open>int\<close>: its decimal digits, most significant first.\<close>

definition digit :: "nat \<Rightarrow> char" where
  "digit n = ''0123456789'' ! n"

function fmt_d :: "nat \<Rightarrow> string" where
  "fmt_d n = (if n < 10 then [digit n] else fmt_d (n div 10) @ [digit (n mod 10)])"
  by pat_completeness auto
termination
  by (relation "measure (\<lambda>n. n)") auto

declare fmt_d.simps [simp del]

text \<open>\<^verbatim>\<open>%v\<close> of a \<^verbatim>\<open>[]string\<close>: the elements between brackets, separated by one space.\<close>

fun join_sp :: "string list \<Rightarrow> string" where
  "join_sp [] = []"
| "join_sp [x] = x"
| "join_sp (x # y # ys) = x @ '' '' @ join_sp (y # ys)"

definition fmt_v :: "string list \<Rightarrow> string" where
  "fmt_v xs = ''['' @ join_sp xs @ '']''"

text \<open>\<^verbatim>\<open>strings.HasPrefix(s, prefix)\<close>.\<close>

definition HasPrefix :: "string \<Rightarrow> string \<Rightarrow> bool" where
  "HasPrefix s p = (length p \<le> length s \<and> take (length p) s = p)"

subsection \<open>Envelope derivation\<close>

text \<open>
  \<^verbatim>\<open>parseAddress\<close>: the address part of the parsed mailbox, or the parser's error
  wrapped as \<^verbatim>\<open>fmt.Errorf("gomail: invalid address %q: %v", field, err)\<close>.
\<close>

definition parseAddress :: "env \<Rightarrow> string \<Rightarrow> error + string" where
  "parseAddress L field =
     (case mail_ParseAddress L field of
        Inl err \<Rightarrow> Inl (''gomail: invalid address '' @ strconv_Quote L field @ '': '' @ err)
      | Inr addr \<Rightarrow> Inr (Address addr))"

text \<open>
  \<^verbatim>\<open>addAddress\<close>: the loop over \<^verbatim>\<open>list\<close> returns the list unchanged at the first
  element equal to \<^verbatim>\<open>addr\<close>; past the end, \<^verbatim>\<open>addr\<close> is appended.
\<close>

fun addAddress_loop :: "string list \<Rightarrow> string list \<Rightarrow> string \<Rightarrow> string list" where
  "addAddress_loop list [] addr = list @ [addr]"
| "addAddress_loop list (a # rest) addr =
     (if addr = a then list else addAddress_loop list rest addr)"

definition addAddress :: "string list \<Rightarrow> string \<Rightarrow> string list" where
  "addAddress list addr = addAddress_loop list list addr"

text \<open>The error of \<^verbatim>\<open>getFrom\<close> when neither field has a value.\<close>

definition MissingSender :: error where
  \<open>MissingSender = ''gomail: invalid message, "From" field is absent''\<close>

text \<open>\<^verbatim>\<open>m.header[k]\<close>: the zero value, a slice of length 0, when the key is absent.\<close>

definition header_values :: "Message \<Rightarrow> string \<Rightarrow> string list" where
  "header_values m k = (case header m k of None \<Rightarrow> [] | Some vs \<Rightarrow> vs)"

definition getFrom :: "env \<Rightarrow> Message \<Rightarrow> error + string" where
  "getFrom L m =
     (case header_values m ''Sender'' of
        v # _ \<Rightarrow> parseAddress L v
      | [] \<Rightarrow>
          (case header_values m ''From'' of
             [] \<Rightarrow> Inl MissingSender
           | v # _ \<Rightarrow> parseAddress L v))"

text \<open>
  \<^verbatim>\<open>getRecipients\<close>. Its first loop only sums the lengths of the three fields
  for the capacity of \<^verbatim>\<open>list\<close>, which no result depends on. The second loop is
  \<open>getRecipients_fields\<close> over the field names with \<open>getRecipients_addresses\<close>
  over the values of one field; an error of \<^verbatim>\<open>parseAddress\<close> returns at once.
\<close>

fun getRecipients_addresses :: "env \<Rightarrow> string list \<Rightarrow> string list \<Rightarrow> error + string list" where
  "getRecipients_addresses L [] list = Inr list"
| "getRecipients_addresses L (a # rest) list =
     (case parseAddress L a of
        Inl err \<Rightarrow> Inl err
      | Inr addr \<Rightarrow> getRecipients_addresses L rest (addAddress list addr))"

fun getRecipients_fields :: "env \<Rightarrow> Message \<Rightarrow> string list \<Rightarrow> string list \<Rightarrow> error + string list" where
  "getRecipients_fields L m [] list = Inr list"
| "getRecipients_fields L m (field # rest) list =
     (case header m field of
        None \<Rightarrow> getRecipients_fields L m rest list
      | Some addresses \<Rightarrow>
          (case getRecipients_addresses L addresses list of
             Inl err \<Rightarrow> Inl err
           | Inr list' \<Rightarrow> getRecipients_fields L m rest list'))"

definition getRecipients :: "env \<Rightarrow> Message \<Rightarrow> error + string list" where
  "getRecipients L m = getRecipients_fields L m [''To'', ''Cc'', ''Bcc''] []"

subsection \<open>The transport\<close>

text \<open>
  The interface \<^verbatim>\<open>Sender\<close>. A transport has effects and may answer differently
  from one call to the next, so each method takes the transport's state and
  returns the new one with its result. \<^verbatim>\<open>SkippableSend\<close> returns a list of
  per-recipient errors and a hard error, each of which may be present
  whatever the other is.
\<close>

record 's Sender =
  Sender_Send :: "string \<Rightarrow> string list \<Rightarrow> Message \<Rightarrow> 's \<Rightarrow> error option \<times> 's"
  Sender_SkippableSend ::
    "string \<Rightarrow> string list \<Rightarrow> Message \<Rightarrow> 's \<Rightarrow> (RcptErrors \<times> error option) \<times> 's"
  Sender_SkipErrRcpt :: "'s \<Rightarrow> bool \<times> 's"

text \<open>
  The calls made on the transport are recorded, in order, beside its state:
  the record is what lets a statement say which calls happened and how often.
\<close>

datatype call =
  Call_SkipErrRcpt
| Call_Send string "string list" Message
| Call_SkippableSend string "string list" Message

type_synonym 's world = "'s \<times> call list"

definition call_SkipErrRcpt :: "'s Sender \<Rightarrow> 's world \<Rightarrow> bool \<times> 's world" where
  "call_SkipErrRcpt s w =
     (case Sender_SkipErrRcpt s (fst w) of
        (b, st) \<Rightarrow> (b, (st, snd w @ [Call_SkipErrRcpt])))"

definition call_Send ::
  "'s Sender \<Rightarrow> string \<Rightarrow> string list \<Rightarrow> Message \<Rightarrow> 's world \<Rightarrow> error option \<times> 's world" where
  "call_Send s from to msg w =
     (case Sender_Send s from to msg (fst w) of
        (err, st) \<Rightarrow> (err, (st, snd w @ [Call_Send from to msg])))"

definition call_SkippableSend ::
  "'s Sender \<Rightarrow> string \<Rightarrow> string list \<Rightarrow> Message \<Rightarrow> 's world
     \<Rightarrow> (RcptErrors \<times> error option) \<times> 's world" where
  "call_SkippableSend s from to msg w =
     (case Sender_SkippableSend s from to msg (fst w) of
        (res, st) \<Rightarrow> (res, (st, snd w @ [Call_SkippableSend from to msg])))"

text \<open>
  \<^verbatim>\<open>SendFunc\<close>: an ordinary send function as a transport, with its three
  methods.
\<close>

type_synonym 's SendFunc = "string \<Rightarrow> string list \<Rightarrow> Message \<Rightarrow> 's \<Rightarrow> error option \<times> 's"

definition SendFunc_Send ::
  "'s SendFunc \<Rightarrow> string \<Rightarrow> string list \<Rightarrow> Message \<Rightarrow> 's \<Rightarrow> error option \<times> 's" where
  "SendFunc_Send f from to msg st = f from to msg st"

definition SendFunc_SkippableSend ::
  "'s SendFunc \<Rightarrow> string \<Rightarrow> string list \<Rightarrow> Message \<Rightarrow> 's \<Rightarrow> (RcptErrors \<times> error option) \<times> 's" where
  "SendFunc_SkippableSend f from to msg st =
     (case f from to msg st of (err, st') \<Rightarrow> (([], err), st'))"

definition SendFunc_SkipErrRcpt :: "'s SendFunc \<Rightarrow> 's \<Rightarrow> bool \<times> 's" where
  "SendFunc_SkipErrRcpt f st = (False, st)"

definition SendFunc :: "'s SendFunc \<Rightarrow> 's Sender" where
  "SendFunc f =
     \<lparr>Sender_Send = SendFunc_Send f,
      Sender_SkippableSend = SendFunc_SkippableSend f,
      Sender_SkipErrRcpt = SendFunc_SkipErrRcpt f\<rparr>"

subsection \<open>Sending\<close>

definition skipRcptErr :: string where
  "skipRcptErr = ''gomail: email sent with skipped recipients''"

text \<open>
  \<^verbatim>\<open>IsSkipRcptErr\<close> calls \<^verbatim>\<open>err.Error()\<close> with no test of \<^verbatim>\<open>err\<close>: on a nil
  interface value the call is a nil dereference and the function panics.
\<close>

datatype 'a outcome = Panics | Returns 'a

definition IsSkipRcptErr :: "error option \<Rightarrow> bool outcome" where
  "IsSkipRcptErr err =
     (case err of
        None \<Rightarrow> Panics
      | Some text \<Rightarrow> Returns (HasPrefix text skipRcptErr))"

text \<open>
  \<^verbatim>\<open>send\<close>: one message. The two envelope errors and the error of
  \<^verbatim>\<open>s.Send\<close> come back with nil per-recipient errors; the result of
  \<^verbatim>\<open>s.SkippableSend\<close> comes back as it is.
\<close>

definition send :: "env \<Rightarrow> 's Sender \<Rightarrow> Message \<Rightarrow> 's world \<Rightarrow> (RcptErrors \<times> error option) \<times> 's world" where
  "send L s m w =
     (case getFrom L m of
        Inl err \<Rightarrow> (([], Some err), w)
      | Inr from \<Rightarrow>
          (case getRecipients L m of
             Inl err \<Rightarrow> (([], Some err), w)
           | Inr to \<Rightarrow>
               (case call_SkipErrRcpt s w of
                  (True, w1) \<Rightarrow> call_SkippableSend s from to m w1
                | (False, w1) \<Rightarrow>
                    (case call_Send s from to m w1 of
                       (Some err, w2) \<Rightarrow> (([], Some err), w2)
                     | (None, w2) \<Rightarrow> (([], None), w2)))))"

text \<open>
  \<^verbatim>\<open>Send\<close>: the loop over the batch, with the index \<open>i\<close> of the message at the
  head and the per-recipient errors \<open>rcptErrs\<close> collected so far.
\<close>

fun Send_loop ::
  "env \<Rightarrow> 's Sender \<Rightarrow> nat \<Rightarrow> Message list \<Rightarrow> RcptErrors \<Rightarrow> 's world \<Rightarrow> error option \<times> 's world" where
  "Send_loop L s i [] rcptErrs w =
     (if length rcptErrs > 0
      then (Some (skipRcptErr @ '': '' @ fmt_v (Rcpts rcptErrs) @ '', error: ''
                    @ RcptErrors_Error L rcptErrs), w)
      else (None, w))"
| "Send_loop L s i (m # msg) rcptErrs w =
     (case send L s m w of
        ((rcptErr, Some err), w') \<Rightarrow>
          (Some (''gomail: could not send email '' @ fmt_d (i + 1) @ '': '' @ err), w')
      | ((rcptErr, None), w') \<Rightarrow>
          Send_loop L s (i + 1) msg
            (if length rcptErr > 0 then rcptErrs @ rcptErr else rcptErrs) w')"

definition Send :: "env \<Rightarrow> 's Sender \<Rightarrow> Message list \<Rightarrow> 's world \<Rightarrow> error option \<times> 's world" where
  "Send L s msg w = Send_loop L s 0 msg [] w"

text \<open>
  A batch whose messages all go through: \<open>sends_ok\<close> runs \<open>send\<close> on each
  message in order, from the world the one before left, and gives the
  per-recipient errors of all of them with the final world; it gives \<open>None\<close>
  when some message has a hard error.
\<close>

fun sends_ok :: "env \<Rightarrow> 's Sender \<Rightarrow> Message list \<Rightarrow> 's world \<Rightarrow> (RcptErrors \<times> 's world) option" where
  "sends_ok L s [] w = Some ([], w)"
| "sends_ok L s (m # msg) w =
     (case send L s m w of
        ((rcptErr, Some err), w') \<Rightarrow> None
      | ((rcptErr, None), w') \<Rightarrow>
          (case sends_ok L s msg w' of
             None \<Rightarrow> None
           | Some (rest, w'') \<Rightarrow> Some (rcptErr @ rest, w'')))"

subsection \<open>Notions the statements use\<close>

text \<open>
  The raw recipient values of a message in the order \<^verbatim>\<open>getRecipients\<close> visits
  them: the values of "To", then of "Cc", then of "Bcc", an absent field
  having none.
\<close>

definition recipient_values :: "Message \<Rightarrow> string list" where
  "recipient_values m =
     header_values m ''To'' @ header_values m ''Cc'' @ header_values m ''Bcc''"

text \<open>
  \<^verbatim>\<open>strconv.Quote\<close> on a string of ASCII bytes, where every byte is one rune
  (a byte from 0x80 on starts a multi-byte sequence in Go, which is not
  modelled): the string between double quotes, with the double quote and the
  backslash behind a backslash, a printable byte (0x20 to 0x7E) as it is, the
  seven control bytes that have a letter escape as that escape, and any other
  byte as \<^verbatim>\<open>\x\<close> and two hexadecimal digits.
\<close>

definition lowerhex :: string where
  "lowerhex = ''0123456789abcdef''"

definition quote_byte :: "char \<Rightarrow> string" where
  "quote_byte c =
     (if c = CHR 0x22 \<or> c = CHR 0x5C then [CHR 0x5C, c]
      else if 0x20 \<le> (of_char c :: nat) \<and> (of_char c :: nat) \<le> 0x7E then [c]
      else if c = CHR 0x07 then [CHR 0x5C, CHR ''a'']
      else if c = CHR 0x08 then [CHR 0x5C, CHR ''b'']
      else if c = CHR 0x0C then [CHR 0x5C, CHR ''f'']
      else if c = CHR 0x0A then [CHR 0x5C, CHR ''n'']
      else if c = CHR 0x0D then [CHR 0x5C, CHR ''r'']
      else if c = CHR 0x09 then [CHR 0x5C, CHR ''t'']
      else if c = CHR 0x0B then [CHR 0x5C, CHR ''v'']
      else [CHR 0x5C, CHR ''x'',
            lowerhex ! ((of_char c :: nat) div 16), lowerhex ! ((of_char c :: nat) mod 16)])"

definition Quote_ascii :: "string \<Rightarrow> string" where
  "Quote_ascii s = [CHR 0x22] @ concat (map quote_byte s) @ [CHR 0x22]"

text \<open>A byte that \<^verbatim>\<open>strconv.Quote\<close> copies unchanged.\<close>

definition plain_byte :: "char \<Rightarrow> bool" where
  "plain_byte c =
     (0x20 \<le> (of_char c :: nat) \<and> (of_char c :: nat) \<le> 0x7E \<and> c \<noteq> CHR 0x22 \<and> c \<noteq> CHR 0x5C)"

subsection \<open>Example inputs\<close>

text \<open>
  An environment for the examples. Its parser stands in for net/mail on the
  values the examples use: it accepts four bare addresses, each parsed to
  itself with no display name, and one mailbox with a display name, parsed to
  the name and the address between the angle brackets; it rejects every other
  value. Its rendering of per-recipient errors stands in for
  \<^verbatim>\<open>RcptErrors.Error()\<close>.
\<close>

definition example_ParseAddress :: "string \<Rightarrow> error + Address" where
  "example_ParseAddress v =
     (if v \<in> set [''a@x.com'', ''b@x.com'', ''c@x.com'', ''s@x.com'']
      then Inr \<lparr>Name = [], Address = v\<rparr>
      else if v = ''Bob <b@x.com>''
      then Inr \<lparr>Name = ''Bob'', Address = ''b@x.com''\<rparr>
      else Inl ''mail: invalid string'')"

definition example_Error :: "RcptErrors \<Rightarrow> string" where
  "example_Error errs = concat (map (\<lambda>e. recipient e @ '': '' @ cause e @ ''; '') errs)"

definition example_env :: env where
  "example_env =
     \<lparr>mail_ParseAddress = example_ParseAddress,
      strconv_Quote = Quote_ascii,
      RcptErrors_Error = example_Error\<rparr>"

text \<open>Messages: the one of scenarios A and B, and variations of it.\<close>

definition msg_plain :: Message where
  "msg_plain =
     \<lparr>header = [''From'' \<mapsto> [''a@x.com''],
                 ''To'' \<mapsto> [''b@x.com'', ''b@x.com'', ''c@x.com'']]\<rparr>"

definition msg_sender :: Message where
  "msg_sender =
     \<lparr>header = [''Sender'' \<mapsto> [''s@x.com''],
                 ''From'' \<mapsto> [''a@x.com''],
                 ''To'' \<mapsto> [''b@x.com'', ''b@x.com'', ''c@x.com''],
                 ''Cc'' \<mapsto> [''a@x.com'', ''b@x.com'']]\<rparr>"

definition msg_named :: Message where
  "msg_named =
     \<lparr>header = [''Sender'' \<mapsto> [''Bob <b@x.com>''],
                 ''From'' \<mapsto> [''a@x.com''],
                 ''To'' \<mapsto> [''Bob <b@x.com>'', ''c@x.com''],
                 ''Bcc'' \<mapsto> [''b@x.com'', ''a@x.com'']]\<rparr>"

definition msg_empty_sender :: Message where
  "msg_empty_sender =
     \<lparr>header = [''Sender'' \<mapsto> [], ''To'' \<mapsto> [''b@x.com'']]\<rparr>"

definition msg_no_from :: Message where
  "msg_no_from = \<lparr>header = [''To'' \<mapsto> [''b@x.com'']]\<rparr>"

definition msg_bad_from :: Message where
  "msg_bad_from = \<lparr>header = [''From'' \<mapsto> [''Bad <>''], ''To'' \<mapsto> [''b@x.com'']]\<rparr>"

definition msg_bad_rcpt :: Message where
  "msg_bad_rcpt =
     \<lparr>header = [''From'' \<mapsto> [''a@x.com''],
                 ''To'' \<mapsto> [''b@x.com''],
                 ''Cc'' \<mapsto> [''Bad <>'', ''c@x.com'']]\<rparr>"

text \<open>
  Transports, whose state counts the sends made: an all-or-nothing function
  that succeeds; an all-or-nothing function that fails; one that skips the
  recipient \<^verbatim>\<open>c@x.com\<close> on every message; one that does so and, from its second
  send on, fails as a whole too.
\<close>

definition rcpt_c :: RcptError where
  "rcpt_c = \<lparr>recipient = ''c@x.com'', cause = ''550 no such user''\<rparr>"

definition accepting :: "nat Sender" where
  "accepting = SendFunc (\<lambda>from to msg n. (None, Suc n))"

definition refusing :: "nat Sender" where
  "refusing = SendFunc (\<lambda>from to msg n. (Some ''EOF'', Suc n))"

definition skipping :: "nat Sender" where
  "skipping =
     \<lparr>Sender_Send = (\<lambda>from to msg n. (None, Suc n)),
      Sender_SkippableSend = (\<lambda>from to msg n. (([rcpt_c], None), Suc n)),
      Sender_SkipErrRcpt = (\<lambda>n. (True, n))\<rparr>"

definition breaking :: "nat Sender" where
  "breaking =
     \<lparr>Sender_Send = (\<lambda>from to msg n. (None, Suc n)),
      Sender_SkippableSend =
        (\<lambda>from to msg n. (([rcpt_c], if n = 0 then None else Some ''EOF''), Suc n)),
      Sender_SkipErrRcpt = (\<lambda>n. (True, n))\<rparr>"

section \<open>Properties\<close>

subsection \<open>Deduplication\<close>

lemma addAddress_loop_eq:
  "addAddress_loop list xs addr = (if addr \<in> set xs then list else list @ [addr])"
  by (induction xs) auto

lemma addAddress_eq:
  "addAddress list addr = (if addr \<in> set list then list else list @ [addr])"
  by (simp add: addAddress_def addAddress_loop_eq)

lemma set_foldl_addAddress:
  "set (foldl addAddress list addrs) = set list \<union> set addrs"
  by (induction addrs arbitrary: list) (auto simp: addAddress_eq)

lemma distinct_foldl_addAddress:
  "distinct list \<Longrightarrow> distinct (foldl addAddress list addrs)"
  by (induction addrs arbitrary: list) (auto simp: addAddress_eq)

text \<open>
  Folding \<open>addAddress\<close> over a list keeps the element at position \<open>i\<close> exactly
  when it does not occur before \<open>i\<close>.
\<close>

lemma foldl_addAddress_first:
  "foldl addAddress [] addrs =
     map (\<lambda>i. addrs ! i) (filter (\<lambda>i. addrs ! i \<notin> set (take i addrs)) [0..<length addrs])"
proof (induction addrs rule: rev_induct)
  case Nil
  show ?case by simp
next
  case (snoc x xs)
  let ?n = "length xs"
  have old: "filter (\<lambda>i. (xs @ [x]) ! i \<notin> set (take i (xs @ [x]))) [0..<?n]
             = filter (\<lambda>i. xs ! i \<notin> set (take i xs)) [0..<?n]"
    by (rule filter_cong) (auto simp: nth_append)
  have same: "map (\<lambda>i. (xs @ [x]) ! i) (filter (\<lambda>i. xs ! i \<notin> set (take i xs)) [0..<?n])
             = map (\<lambda>i. xs ! i) (filter (\<lambda>i. xs ! i \<notin> set (take i xs)) [0..<?n])"
    by (rule map_cong) (auto simp: nth_append)
  have rhs: "map (\<lambda>i. (xs @ [x]) ! i)
               (filter (\<lambda>i. (xs @ [x]) ! i \<notin> set (take i (xs @ [x]))) [0..<length (xs @ [x])])
             = map (\<lambda>i. xs ! i) (filter (\<lambda>i. xs ! i \<notin> set (take i xs)) [0..<?n])
               @ (if x \<in> set xs then [] else [x])"
    using old same by simp
  have lhs: "foldl addAddress [] (xs @ [x])
             = foldl addAddress [] xs @ (if x \<in> set xs then [] else [x])"
    by (simp add: addAddress_eq set_foldl_addAddress)
  show ?case
    unfolding lhs rhs snoc.IH ..
qed

subsection \<open>The loops of getRecipients\<close>

lemma getRecipients_addresses_append:
  "getRecipients_addresses L (xs @ ys) list =
     (case getRecipients_addresses L xs list of
        Inl err \<Rightarrow> Inl err
      | Inr list' \<Rightarrow> getRecipients_addresses L ys list')"
  by (induction xs arbitrary: list) (auto split: sum.splits)

lemma getRecipients_fields_eq:
  "getRecipients_fields L m fs list =
     getRecipients_addresses L (concat (map (header_values m) fs)) list"
  by (induction fs arbitrary: list)
     (auto simp: getRecipients_addresses_append header_values_def split: option.splits sum.splits)

lemma getRecipients_eq:
  "getRecipients L m = getRecipients_addresses L (recipient_values m) []"
  by (simp add: getRecipients_def getRecipients_fields_eq recipient_values_def)

lemma getRecipients_addresses_ok:
  "map (parseAddress L) raw = map Inr addrs \<Longrightarrow>
   getRecipients_addresses L raw list = Inr (foldl addAddress list addrs)"
proof (induction raw arbitrary: addrs list)
  case Nil
  then show ?case by simp
next
  case (Cons a raw)
  then obtain addr rest where "addrs = addr # rest" by (cases addrs) auto
  with Cons show ?case by auto
qed

lemma getRecipients_addresses_bad:
  "map (parseAddress L) pre = map Inr addrs \<Longrightarrow> parseAddress L field = Inl err \<Longrightarrow>
   getRecipients_addresses L (pre @ field # post) list = Inl err"
  by (simp add: getRecipients_addresses_append getRecipients_addresses_ok)

lemma example_parse [simp]:
  "parseAddress example_env ''a@x.com'' = Inr ''a@x.com''"
  "parseAddress example_env ''b@x.com'' = Inr ''b@x.com''"
  "parseAddress example_env ''c@x.com'' = Inr ''c@x.com''"
  "parseAddress example_env ''s@x.com'' = Inr ''s@x.com''"
  "parseAddress example_env ''Bob <b@x.com>'' = Inr ''b@x.com''"
  by (simp_all add: parseAddress_def example_env_def example_ParseAddress_def)

text \<open>
  What \<^verbatim>\<open>parseAddress\<close> returns on a value that \<^verbatim>\<open>mail.ParseAddress\<close> accepts is
  the address part of the parsed mailbox, the canonical address.
\<close>

lemma parseAddress_canonical:
  "mail_ParseAddress L v = Inr a \<Longrightarrow> parseAddress L v = Inr (Address a)"
  by (simp add: parseAddress_def)

lemma map_parseAddress_canonical:
  "map (mail_ParseAddress L) raw = map Inr parsed \<Longrightarrow>
   map (parseAddress L) raw = map Inr (map Address parsed)"
proof (induction raw arbitrary: parsed)
  case Nil
  then show ?case by simp
next
  case (Cons v raw)
  then obtain a rest where "parsed = a # rest" by (cases parsed) auto
  with Cons show ?case by (auto simp: parseAddress_canonical)
qed

text \<open>
  C5. When \<^verbatim>\<open>mail.ParseAddress\<close> accepts every value of "To", "Cc" and "Bcc",
  \<open>parsed\<close> being the parsed mailboxes in the order To, Cc, Bcc with each field's
  values in stored order and \<open>addrs\<close> their address parts, the canonical
  addresses: \<^verbatim>\<open>getRecipients\<close> returns a list with the same addresses as
  \<open>addrs\<close>, each exactly once, and the list is \<open>addrs\<close> restricted to the positions
  whose address does not occur at an earlier position: every canonical address
  stands where it first occurs.
\<close>

theorem getRecipients_first_occurrence:
  assumes "map (mail_ParseAddress L) (recipient_values m) = map Inr parsed"
    and "addrs = map Address parsed"
  shows "\<exists>list. getRecipients L m = Inr list
           \<and> set list = set addrs
           \<and> distinct list
           \<and> list = map (\<lambda>i. addrs ! i)
                       (filter (\<lambda>i. addrs ! i \<notin> set (take i addrs)) [0..<length addrs])"
proof -
  have "map (parseAddress L) (recipient_values m) = map Inr addrs"
    using assms by (simp add: map_parseAddress_canonical)
  then have "getRecipients L m = Inr (foldl addAddress [] addrs)"
    by (simp add: getRecipients_eq getRecipients_addresses_ok)
  moreover have "set (foldl addAddress [] addrs) = set addrs"
    by (simp add: set_foldl_addAddress)
  moreover have "distinct (foldl addAddress [] addrs)"
    by (simp add: distinct_foldl_addAddress)
  ultimately show ?thesis
    using foldl_addAddress_first [of addrs] by simp
qed

theorem getRecipients_first_occurrence_witness:
  "map (mail_ParseAddress example_env) (recipient_values msg_named)
     = map Inr [\<lparr>Name = ''Bob'', Address = ''b@x.com''\<rparr>,
                \<lparr>Name = [], Address = ''c@x.com''\<rparr>,
                \<lparr>Name = [], Address = ''b@x.com''\<rparr>,
                \<lparr>Name = [], Address = ''a@x.com''\<rparr>]
   \<and> recipient_values msg_named = [''Bob <b@x.com>'', ''c@x.com'', ''b@x.com'', ''a@x.com'']
   \<and> getRecipients example_env msg_named = Inr [''b@x.com'', ''c@x.com'', ''a@x.com'']"
proof -
  have v: "recipient_values msg_named = [''Bob <b@x.com>'', ''c@x.com'', ''b@x.com'', ''a@x.com'']"
    by (simp add: recipient_values_def header_values_def msg_named_def)
  have h: "map (mail_ParseAddress example_env) (recipient_values msg_named)
     = map Inr [\<lparr>Name = ''Bob'', Address = ''b@x.com''\<rparr>,
                \<lparr>Name = [], Address = ''c@x.com''\<rparr>,
                \<lparr>Name = [], Address = ''b@x.com''\<rparr>,
                \<lparr>Name = [], Address = ''a@x.com''\<rparr>]"
    unfolding v by (simp add: example_env_def example_ParseAddress_def)
  have a: "[''b@x.com'', ''c@x.com'', ''b@x.com'', ''a@x.com'']
             = map Address [\<lparr>Name = ''Bob'', Address = ''b@x.com''\<rparr>,
                \<lparr>Name = [], Address = ''c@x.com''\<rparr>,
                \<lparr>Name = [], Address = ''b@x.com''\<rparr>,
                \<lparr>Name = [], Address = ''a@x.com''\<rparr>]"
    by simp
  have u: "[0..<4] = [0, 1, 2, 3::nat]" by (simp add: upt_rec)
  have "getRecipients example_env msg_named = Inr [''b@x.com'', ''c@x.com'', ''a@x.com'']"
    using getRecipients_first_occurrence [OF h a] by (simp add: u)
  then show ?thesis
    using h v by simp
qed

subsection \<open>The envelope sender\<close>

text \<open>
  C6. When the "Sender" field has a value (a field is present in the sense the
  claim needs when it has a first value), \<^verbatim>\<open>getFrom\<close> is decided by the first
  value \<open>v\<close> of "Sender" alone. When \<^verbatim>\<open>mail.ParseAddress\<close> accepts \<open>v\<close>, the
  envelope sender is the address part of the parsed mailbox, the canonical
  address of \<open>v\<close>; when it rejects \<open>v\<close>, \<^verbatim>\<open>getFrom\<close> fails with the
  invalid-address error for \<open>v\<close> and does not turn to "From". The result is the
  same whatever "From" holds, present or not.
\<close>

theorem getFrom_Sender_first:
  assumes "header m ''Sender'' = Some (v # vs)"
  shows "getFrom L m = parseAddress L v
    \<and> (\<forall>from. getFrom L (m\<lparr>header := (header m)(''From'' := from)\<rparr>) = parseAddress L v)
    \<and> (\<forall>a. mail_ParseAddress L v = Inr a \<longrightarrow>
          getFrom L m = Inr (Address a)
          \<and> (\<forall>from. getFrom L (m\<lparr>header := (header m)(''From'' := from)\<rparr>) = Inr (Address a)))
    \<and> (\<forall>err. mail_ParseAddress L v = Inl err \<longrightarrow>
          getFrom L m = Inl (''gomail: invalid address '' @ strconv_Quote L v @ '': '' @ err))"
proof -
  have g: "getFrom L m = parseAddress L v"
    using assms by (simp add: getFrom_def header_values_def)
  have i: "getFrom L (m\<lparr>header := (header m)(''From'' := fr)\<rparr>) = parseAddress L v" for fr
    using assms by (simp add: getFrom_def header_values_def)
  have ok: "parseAddress L v = Inr (Address a)" if "mail_ParseAddress L v = Inr a" for a
    using that by (rule parseAddress_canonical)
  have bad: "parseAddress L v = Inl (''gomail: invalid address '' @ strconv_Quote L v @ '': '' @ err)"
    if "mail_ParseAddress L v = Inl err" for err
    using that by (simp add: parseAddress_def)
  show ?thesis
    using g i ok bad by simp
qed

theorem getFrom_Sender_first_witness:
  "header msg_named ''Sender'' = Some [''Bob <b@x.com>'']
   \<and> header msg_named ''From'' = Some [''a@x.com'']
   \<and> mail_ParseAddress example_env ''Bob <b@x.com>''
       = Inr \<lparr>Name = ''Bob'', Address = ''b@x.com''\<rparr>
   \<and> getFrom example_env msg_named = Inr ''b@x.com''
   \<and> getFrom example_env (msg_named\<lparr>header := (header msg_named)(''From'' := None)\<rparr>)
       = Inr ''b@x.com''"
proof -
  have h: "header msg_named ''Sender'' = Some (''Bob <b@x.com>'' # [])"
    and f: "header msg_named ''From'' = Some [''a@x.com'']"
    by (simp_all add: msg_named_def)
  have p: "mail_ParseAddress example_env ''Bob <b@x.com>''
       = Inr \<lparr>Name = ''Bob'', Address = ''b@x.com''\<rparr>"
    by (simp add: example_env_def example_ParseAddress_def)
  note t = getFrom_Sender_first [OF h, of example_env, THEN conjunct2, THEN conjunct2,
      THEN conjunct1, rule_format, OF p]
  show ?thesis
    using h f p t by simp
qed

text \<open>
  C7. When the "Sender" field is absent or has no value, \<^verbatim>\<open>getFrom\<close> falls back
  to "From": with "From" absent or without a value too it fails with the
  missing-sender error and returns no address; with a first value in "From" it
  is the parse of that value.
\<close>

theorem getFrom_fallback:
  assumes "header m ''Sender'' \<in> {None, Some []}"
  shows "(header m ''From'' \<in> {None, Some []} \<longrightarrow> getFrom L m = Inl MissingSender)
         \<and> (\<forall>v vs. header m ''From'' = Some (v # vs) \<longrightarrow> getFrom L m = parseAddress L v)"
  using assms by (auto simp: getFrom_def header_values_def)

theorem getFrom_fallback_witness:
  "header msg_plain ''Sender'' = None
   \<and> header msg_plain ''From'' = Some [''a@x.com'']
   \<and> getFrom example_env msg_plain = Inr ''a@x.com''
   \<and> header msg_empty_sender ''Sender'' = Some []
   \<and> header msg_empty_sender ''From'' = None
   \<and> getFrom example_env msg_empty_sender = Inl MissingSender"
proof -
  have s1: "header msg_plain ''Sender'' \<in> {None, Some []}"
    and f1: "header msg_plain ''From'' = Some (''a@x.com'' # [])"
    by (simp_all add: msg_plain_def)
  have s2: "header msg_empty_sender ''Sender'' \<in> {None, Some []}"
    and f2: "header msg_empty_sender ''From'' \<in> {None, Some []}"
    by (simp_all add: msg_empty_sender_def)
  have "getFrom example_env msg_plain = Inr ''a@x.com''"
    using getFrom_fallback [OF s1, of example_env] f1 by simp
  moreover have "getFrom example_env msg_empty_sender = Inl MissingSender"
    using getFrom_fallback [OF s2, of example_env] f2 by blast
  ultimately show ?thesis
    by (simp add: msg_plain_def msg_empty_sender_def)
qed

subsection \<open>Invalid addresses\<close>

lemma Quote_ascii_plain:
  "list_all plain_byte s \<Longrightarrow> Quote_ascii s = [CHR 0x22] @ s @ [CHR 0x22]"
proof -
  have "list_all plain_byte s \<Longrightarrow> concat (map quote_byte s) = s"
    by (induction s) (auto simp: plain_byte_def quote_byte_def)
  then show "list_all plain_byte s \<Longrightarrow> Quote_ascii s = [CHR 0x22] @ s @ [CHR 0x22]"
    by (simp add: Quote_ascii_def)
qed

text \<open>
  C8, as the code has it. When \<^verbatim>\<open>mail.ParseAddress\<close> rejects a value with the
  error \<open>err\<close>, \<^verbatim>\<open>parseAddress\<close> fails with the text
  \<^verbatim>\<open>gomail: invalid address\<close>, the value as \<^verbatim>\<open>%q\<close> renders it, a colon and \<open>err\<close>.
  The value stands in the text in its quoted form; it stands there verbatim
  when it is made of bytes that quoting copies (printable ASCII other than the
  double quote and the backslash). In \<^verbatim>\<open>getRecipients\<close>, when the values before
  the rejected one all parse, the result is that error and no list.
\<close>

theorem parseAddress_invalid:
  assumes "mail_ParseAddress L field = Inl err"
  shows "parseAddress L field
           = Inl (''gomail: invalid address '' @ strconv_Quote L field @ '': '' @ err)
         \<and> (list_all plain_byte field \<and> strconv_Quote L field = Quote_ascii field \<longrightarrow>
              sublist field (''gomail: invalid address '' @ strconv_Quote L field @ '': '' @ err))
         \<and> (\<forall>m pre post addrs.
              recipient_values m = pre @ field # post \<and> map (parseAddress L) pre = map Inr addrs \<longrightarrow>
              getRecipients L m
                = Inl (''gomail: invalid address '' @ strconv_Quote L field @ '': '' @ err))"
proof -
  let ?text = "''gomail: invalid address '' @ strconv_Quote L field @ '': '' @ err"
  have p: "parseAddress L field = Inl ?text"
    using assms by (simp add: parseAddress_def)
  have q: "sublist field ?text"
    if "list_all plain_byte field" "strconv_Quote L field = Quote_ascii field"
  proof -
    have "?text = (''gomail: invalid address '' @ [CHR 0x22]) @ field @ ([CHR 0x22] @ '': '' @ err)"
      using that by (simp add: Quote_ascii_plain)
    then show ?thesis
      unfolding sublist_def by blast
  qed
  have r: "getRecipients L m = Inl ?text"
    if "recipient_values m = pre @ field # post" "map (parseAddress L) pre = map Inr addrs"
    for m pre post addrs
    using that p by (simp add: getRecipients_eq getRecipients_addresses_bad)
  show ?thesis
    using p q r by blast
qed

theorem parseAddress_invalid_witness:
  "mail_ParseAddress example_env ''Bad <>'' = Inl ''mail: invalid string''
   \<and> parseAddress example_env ''Bad <>''
       = Inl (''gomail: invalid address '' @ [CHR 0x22] @ ''Bad <>'' @ [CHR 0x22]
               @ '': mail: invalid string'')
   \<and> sublist ''Bad <>'' (''gomail: invalid address '' @ [CHR 0x22] @ ''Bad <>'' @ [CHR 0x22]
               @ '': mail: invalid string'')
   \<and> recipient_values msg_bad_rcpt = [''b@x.com''] @ ''Bad <>'' # [''c@x.com'']
   \<and> getRecipients example_env msg_bad_rcpt
       = Inl (''gomail: invalid address '' @ [CHR 0x22] @ ''Bad <>'' @ [CHR 0x22]
               @ '': mail: invalid string'')"
proof -
  have h: "mail_ParseAddress example_env ''Bad <>'' = Inl ''mail: invalid string''"
    by (simp add: example_env_def example_ParseAddress_def)
  have q: "strconv_Quote example_env ''Bad <>'' = [CHR 0x22] @ ''Bad <>'' @ [CHR 0x22]"
    by (simp add: example_env_def Quote_ascii_def quote_byte_def)
  have a: "list_all plain_byte ''Bad <>''"
    by (simp add: plain_byte_def)
  have b: "strconv_Quote example_env ''Bad <>'' = Quote_ascii ''Bad <>''"
    by (simp add: example_env_def)
  have v: "recipient_values msg_bad_rcpt = [''b@x.com''] @ ''Bad <>'' # [''c@x.com'']"
    by (simp add: recipient_values_def header_values_def msg_bad_rcpt_def)
  have pre: "map (parseAddress example_env) [''b@x.com''] = map Inr [''b@x.com'']"
    by simp
  note t1 = parseAddress_invalid [OF h, THEN conjunct1]
  note t2 = parseAddress_invalid [OF h, THEN conjunct2, THEN conjunct1, rule_format]
  note t3 = parseAddress_invalid [OF h, THEN conjunct2, THEN conjunct2, rule_format,
      of msg_bad_rcpt "[''b@x.com'']" "[''c@x.com'']" "[''b@x.com'']"]
  have "parseAddress example_env ''Bad <>''
       = Inl (''gomail: invalid address '' @ [CHR 0x22] @ ''Bad <>'' @ [CHR 0x22]
               @ '': mail: invalid string'')"
    unfolding t1 q by simp
  moreover have "sublist ''Bad <>'' (''gomail: invalid address '' @ [CHR 0x22] @ ''Bad <>''
               @ [CHR 0x22] @ '': mail: invalid string'')"
    using t2 [OF conjI [OF a b]] unfolding q by simp
  moreover have "getRecipients example_env msg_bad_rcpt
       = Inl (''gomail: invalid address '' @ [CHR 0x22] @ ''Bad <>'' @ [CHR 0x22]
               @ '': mail: invalid string'')"
    using t3 [OF conjI [OF v pre]] unfolding q by simp
  ultimately show ?thesis
    using h v by simp
qed

text \<open>
  C8 as it is written fails on a value with a double quote: the error text
  holds the value with each double quote behind a backslash, and the value
  itself occurs nowhere in it.
\<close>

theorem parseAddress_raw_value_counterexample:
  \<open>mail_ParseAddress example_env ''"Bob" <>'' = Inl ''mail: invalid string''
   \<and> parseAddress example_env ''"Bob" <>''
       = Inl (''gomail: invalid address "'' @ [CHR 0x5C] @ ''"Bob'' @ [CHR 0x5C]
               @ ''" <>": mail: invalid string'')
   \<and> \<not> sublist ''"Bob" <>''
         (''gomail: invalid address "'' @ [CHR 0x5C] @ ''"Bob'' @ [CHR 0x5C]
           @ ''" <>": mail: invalid string'')\<close>
  by (simp add: parseAddress_def example_env_def example_ParseAddress_def
        Quote_ascii_def quote_byte_def sublist_code(3))

subsection \<open>Rendering\<close>

lemma HasPrefix_prefix: "HasPrefix s p = prefix p s"
  unfolding HasPrefix_def prefix_def
  by (metis append_eq_conv_conj append_take_drop_id length_append le_add1)

lemma sublist_within:
  assumes "sublist x ys"
  shows "sublist x (ps @ ys @ ss)"
proof -
  from assms obtain a b where "ys = a @ x @ b"
    unfolding sublist_def by blast
  then have "ps @ ys @ ss = (ps @ a) @ x @ (b @ ss)"
    by simp
  then show ?thesis
    unfolding sublist_def by blast
qed

lemma sublist_join_sp: "x \<in> set xs \<Longrightarrow> sublist x (join_sp xs)"
proof (induction xs rule: join_sp.induct)
  case 1
  then show ?case by simp
next
  case (2 y)
  then show ?case by simp
next
  case (3 y z zs)
  show ?case
  proof (cases "x = y")
    case True
    then show ?thesis by simp
  next
    case False
    with 3 have "sublist x (join_sp (z # zs))" by simp
    then have "sublist x ((y @ '' '') @ join_sp (z # zs) @ [])"
      by (rule sublist_within)
    then show ?thesis by simp
  qed
qed

lemma sublist_fmt_v: "x \<in> set xs \<Longrightarrow> sublist x (fmt_v xs)"
  unfolding fmt_v_def by (rule sublist_within) (rule sublist_join_sp)

lemma fmt_d_digit: "n < 10 \<Longrightarrow> fmt_d n = [digit n]"
  by (simp add: fmt_d.simps)

lemma not_skip_prefix:
  "\<not> prefix skipRcptErr (''gomail: could not send email '' @ x)"
  by (simp add: skipRcptErr_def)

subsection \<open>The batch loop\<close>

text \<open>
  After a prefix of the batch that goes through, the loop stands at the next
  message with the per-recipient errors of the prefix collected.
\<close>

lemma Send_loop_prefix:
  "sends_ok L s pre w = Some (errs, w1) \<Longrightarrow>
   Send_loop L s i (pre @ rest) acc w = Send_loop L s (i + length pre) rest (acc @ errs) w1"
proof (induction pre arbitrary: i acc w errs)
  case Nil
  then show ?case by simp
next
  case (Cons m pre)
  from Cons.prems obtain r w' rs where
    m: "send L s m w = ((r, None), w')" and
    p: "sends_ok L s pre w' = Some (rs, w1)" and
    e: "errs = r @ rs"
    by (auto split: prod.splits option.splits)
  have "Send_loop L s i ((m # pre) @ rest) acc w = Send_loop L s (i + 1) (pre @ rest) (acc @ r) w'"
    using m by simp
  also have "\<dots> = Send_loop L s (i + 1 + length pre) rest ((acc @ r) @ rs) w1"
    using p by (rule Cons.IH)
  finally show ?case
    using e by simp
qed

text \<open>A batch with a hard error ends in a position-wrapped error.\<close>

lemma Send_loop_hard:
  "sends_ok L s msg w = None \<Longrightarrow>
   \<exists>x w'. Send_loop L s i msg acc w = (Some (''gomail: could not send email '' @ x), w')"
proof (induction msg arbitrary: i acc w)
  case Nil
  then show ?case by simp
next
  case (Cons m msg)
  obtain r err w' where m: "send L s m w = ((r, err), w')"
    by (metis prod.exhaust)
  show ?case
  proof (cases err)
    case (Some e)
    with m show ?thesis by simp
  next
    case None
    with m Cons.prems have "sends_ok L s msg w' = None"
      by (auto split: option.splits)
    from Cons.IH [OF this] None m show ?thesis by simp
  qed
qed

subsection \<open>The examples, evaluated\<close>

lemma example_getFrom:
  "getFrom example_env msg_plain = Inr ''a@x.com''"
  "getFrom example_env msg_sender = Inr ''s@x.com''"
  "getFrom example_env msg_no_from = Inl MissingSender"
  by (simp_all add: getFrom_def header_values_def msg_plain_def msg_sender_def msg_no_from_def)

lemma example_getRecipients:
  "getRecipients example_env msg_plain = Inr [''b@x.com'', ''c@x.com'']"
  "getRecipients example_env msg_sender = Inr [''b@x.com'', ''c@x.com'', ''a@x.com'']"
  by (simp_all add: getRecipients_def addAddress_def msg_plain_def msg_sender_def)

lemma example_send_accepting:
  "send example_env accepting msg_plain (n, tr)
     = (([], None),
        (Suc n, tr @ [Call_SkipErrRcpt, Call_Send ''a@x.com'' [''b@x.com'', ''c@x.com''] msg_plain]))"
  "send example_env accepting msg_no_from (n, tr) = (([], Some MissingSender), (n, tr))"
  by (simp_all add: send_def example_getFrom example_getRecipients call_SkipErrRcpt_def
        call_Send_def accepting_def SendFunc_def SendFunc_SkipErrRcpt_def SendFunc_Send_def)

lemma example_bad_rcpt:
  "getFrom example_env msg_bad_rcpt = Inr ''a@x.com''"
  "getRecipients example_env msg_bad_rcpt
     = Inl (''gomail: invalid address '' @ [CHR 0x22] @ ''Bad <>'' @ [CHR 0x22]
             @ '': mail: invalid string'')"
  by (simp_all add: getFrom_def getRecipients_def header_values_def addAddress_def
        msg_bad_rcpt_def parseAddress_def example_env_def example_ParseAddress_def
        Quote_ascii_def quote_byte_def)

lemma example_refusing:
  "Sender_SkipErrRcpt refusing n = (False, n)"
  "Sender_Send refusing from to msg n = (Some ''EOF'', Suc n)"
  by (simp_all add: refusing_def SendFunc_def SendFunc_SkipErrRcpt_def SendFunc_Send_def)

lemma example_send_skipping:
  "send example_env skipping msg_plain (n, tr)
     = (([rcpt_c], None),
        (Suc n, tr @ [Call_SkipErrRcpt,
                      Call_SkippableSend ''a@x.com'' [''b@x.com'', ''c@x.com''] msg_plain]))"
  by (simp add: send_def example_getFrom example_getRecipients call_SkipErrRcpt_def
        call_SkippableSend_def skipping_def)

lemma example_send_breaking:
  "send example_env breaking msg_plain (0, tr)
     = (([rcpt_c], None),
        (Suc 0, tr @ [Call_SkipErrRcpt,
                      Call_SkippableSend ''a@x.com'' [''b@x.com'', ''c@x.com''] msg_plain]))"
  "send example_env breaking msg_sender (Suc n, tr)
     = (([rcpt_c], Some ''EOF''),
        (Suc (Suc n), tr @ [Call_SkipErrRcpt,
                      Call_SkippableSend ''s@x.com'' [''b@x.com'', ''c@x.com'', ''a@x.com'']
                        msg_sender]))"
  by (simp_all add: send_def example_getFrom example_getRecipients call_SkipErrRcpt_def
        call_SkippableSend_def breaking_def)

subsection \<open>The result of a batch\<close>

text \<open>
  C1. When every message of the batch goes through (no envelope error and no
  hard error of the transport), \<open>errs\<close> being the per-recipient errors the
  transport returned over the batch, in order: with no such error \<^verbatim>\<open>Send\<close>
  returns nil; with at least one it returns an error whose text is the prefix
  \<^verbatim>\<open>gomail: email sent with skipped recipients\<close>, then \<^verbatim>\<open>: \<close>, the list
  \<^verbatim>\<open>Rcpts()\<close> of the affected recipients, \<^verbatim>\<open>, error: \<close> and the rendered detail
  \<^verbatim>\<open>Error()\<close> of all of them. In particular the text starts with the prefix,
  holds the address of every affected recipient and ends with the detail.
\<close>

theorem Send_all_ok:
  assumes "sends_ok L s msg w = Some (errs, w')"
  shows "(errs = [] \<longrightarrow> Send L s msg w = (None, w'))
         \<and> (errs \<noteq> [] \<longrightarrow>
              (\<exists>text. Send L s msg w = (Some text, w')
                 \<and> text = skipRcptErr @ '': '' @ fmt_v (Rcpts errs) @ '', error: ''
                            @ RcptErrors_Error L errs
                 \<and> prefix skipRcptErr text
                 \<and> (\<forall>e \<in> set errs. sublist (recipient e) text)
                 \<and> suffix (RcptErrors_Error L errs) text))"
proof -
  let ?text = "skipRcptErr @ '': '' @ fmt_v (Rcpts errs) @ '', error: '' @ RcptErrors_Error L errs"
  have run: "Send L s msg w = Send_loop L s (length msg) [] errs w'"
    using Send_loop_prefix [OF assms, of 0 "[]" "[]"] by (simp add: Send_def)
  have embedded: "sublist (recipient e) ?text" if "e \<in> set errs" for e
  proof -
    from that have "recipient e \<in> set (Rcpts errs)"
      by (simp add: Rcpts_def)
    then have "sublist (recipient e) (fmt_v (Rcpts errs))"
      by (rule sublist_fmt_v)
    then have "sublist (recipient e)
                 ((skipRcptErr @ '': '') @ fmt_v (Rcpts errs) @ ('', error: '' @ RcptErrors_Error L errs))"
      by (rule sublist_within)
    then show ?thesis by simp
  qed
  have tail: "suffix (RcptErrors_Error L errs) ?text"
    unfolding suffix_def by (metis append.assoc)
  show ?thesis
  proof (cases "errs = []")
    case True
    with run show ?thesis by simp
  next
    case False
    with run have "Send L s msg w = (Some ?text, w')" by simp
    with False embedded tail show ?thesis by simp
  qed
qed

theorem Send_all_ok_witness:
  "sends_ok example_env skipping [msg_plain] (0, [])
     = Some ([rcpt_c],
             (1, [Call_SkipErrRcpt,
                  Call_SkippableSend ''a@x.com'' [''b@x.com'', ''c@x.com''] msg_plain]))
   \<and> fst (Send example_env skipping [msg_plain] (0, []))
       = Some ''gomail: email sent with skipped recipients: [c@x.com], error: c@x.com: 550 no such user; ''
   \<and> sends_ok example_env accepting [msg_plain] (0, [])
       = Some ([], (1, [Call_SkipErrRcpt,
                        Call_Send ''a@x.com'' [''b@x.com'', ''c@x.com''] msg_plain]))
   \<and> fst (Send example_env accepting [msg_plain] (0, [])) = None"
proof -
  have h1: "sends_ok example_env skipping [msg_plain] (0, [])
     = Some ([rcpt_c],
             (1, [Call_SkipErrRcpt,
                  Call_SkippableSend ''a@x.com'' [''b@x.com'', ''c@x.com''] msg_plain]))"
    by (simp add: example_send_skipping)
  have h2: "sends_ok example_env accepting [msg_plain] (0, [])
       = Some ([], (1, [Call_SkipErrRcpt,
                        Call_Send ''a@x.com'' [''b@x.com'', ''c@x.com''] msg_plain]))"
    by (simp add: example_send_accepting)
  have "fst (Send example_env skipping [msg_plain] (0, []))
       = Some ''gomail: email sent with skipped recipients: [c@x.com], error: c@x.com: 550 no such user; ''"
    using Send_all_ok [OF h1]
    by (auto simp: skipRcptErr_def fmt_v_def Rcpts_def rcpt_c_def example_env_def example_Error_def)
  moreover have "fst (Send example_env accepting [msg_plain] (0, [])) = None"
    using Send_all_ok [OF h2] by simp
  ultimately show ?thesis
    using h1 h2 by simp
qed

text \<open>
  The four ways in which \<^verbatim>\<open>send\<close> returns a hard error: the envelope sender
  cannot be derived; the recipients cannot be derived; \<^verbatim>\<open>Send\<close> of the transport
  fails; \<^verbatim>\<open>SkippableSend\<close> of the transport returns a hard error. In the first two
  the transport is not called.
\<close>

lemma send_getFrom_fails:
  "getFrom L m = Inl e \<Longrightarrow> send L s m w = (([], Some e), w)"
  by (simp add: send_def)

lemma send_getRecipients_fails:
  "getFrom L m = Inr from \<Longrightarrow> getRecipients L m = Inl e \<Longrightarrow> send L s m w = (([], Some e), w)"
  by (simp add: send_def)

lemma send_Send_fails:
  "getFrom L m = Inr from \<Longrightarrow> getRecipients L m = Inr to \<Longrightarrow>
   Sender_SkipErrRcpt s st = (False, st') \<Longrightarrow> Sender_Send s from to m st' = (Some e, st'') \<Longrightarrow>
   send L s m (st, tr) = (([], Some e), (st'', tr @ [Call_SkipErrRcpt, Call_Send from to m]))"
  by (simp add: send_def call_SkipErrRcpt_def call_Send_def)

lemma send_SkippableSend_fails:
  "getFrom L m = Inr from \<Longrightarrow> getRecipients L m = Inr to \<Longrightarrow>
   Sender_SkipErrRcpt s st = (True, st') \<Longrightarrow>
   Sender_SkippableSend s from to m st' = ((r, Some e), st'') \<Longrightarrow>
   send L s m (st, tr)
     = ((r, Some e), (st'', tr @ [Call_SkipErrRcpt, Call_SkippableSend from to m]))"
  by (simp add: send_def call_SkipErrRcpt_def call_SkippableSend_def)

text \<open>The batch stops at the first message on which \<^verbatim>\<open>send\<close> returns a hard error.\<close>

lemma Send_stops_at:
  assumes "sends_ok L s pre w = Some (errs, w1)"
    and "send L s m w1 = ((r, Some e), w2)"
  shows "Send L s (pre @ m # post) w
           = (Some (''gomail: could not send email '' @ fmt_d (length pre + 1) @ '': '' @ e), w2)"
  using Send_loop_prefix [OF assms(1), of 0 "m # post" "[]"] assms(2)
  by (simp add: Send_def)

text \<open>
  C4. The messages before \<open>m\<close> go through and leave the transport in state \<open>st1\<close>
  with the calls \<open>tr1\<close> made, and \<open>m\<close> is the first message with a hard error
  \<open>e\<close>, whatever messages \<open>post\<close> follow it. Then \<^verbatim>\<open>Send\<close> returns the error
  \<^verbatim>\<open>gomail: could not send email N: e\<close> with \<open>N\<close> the position of \<open>m\<close> counted from 1,
  and the calls made on the transport end with those for \<open>m\<close>:
  \<^item> when \<^verbatim>\<open>getFrom\<close> fails with \<open>e\<close>, or \<^verbatim>\<open>getFrom\<close> succeeds and
    \<^verbatim>\<open>getRecipients\<close> fails with \<open>e\<close>, no call is made for \<open>m\<close>: the transport is
    left at \<open>st1\<close> and \<open>tr1\<close>;
  \<^item> when the envelope is derived, \<^verbatim>\<open>SkipErrRcpt()\<close> is false and \<^verbatim>\<open>Send\<close> of the
    transport fails with \<open>e\<close>, the calls are \<open>tr1\<close>, the query and that one call;
  \<^item> when the envelope is derived, \<^verbatim>\<open>SkipErrRcpt()\<close> is true and \<^verbatim>\<open>SkippableSend\<close>
    returns the hard error \<open>e\<close>, the calls are \<open>tr1\<close>, the query and that one call.
  In no case is a message of \<open>post\<close> looked at: the result does not depend on
  \<open>post\<close>, and no call for a message of \<open>post\<close> is recorded.
\<close>

theorem Send_fail_fast:
  assumes "sends_ok L s pre w = Some (errs, (st1, tr1))"
  shows
    "(getFrom L m = Inl e \<longrightarrow>
        Send L s (pre @ m # post) w
          = (Some (''gomail: could not send email '' @ fmt_d (length pre + 1) @ '': '' @ e),
             (st1, tr1)))
     \<and> (\<forall>from. getFrom L m = Inr from \<and> getRecipients L m = Inl e \<longrightarrow>
        Send L s (pre @ m # post) w
          = (Some (''gomail: could not send email '' @ fmt_d (length pre + 1) @ '': '' @ e),
             (st1, tr1)))
     \<and> (\<forall>from to st2 st3.
          getFrom L m = Inr from \<and> getRecipients L m = Inr to
          \<and> Sender_SkipErrRcpt s st1 = (False, st2)
          \<and> Sender_Send s from to m st2 = (Some e, st3) \<longrightarrow>
        Send L s (pre @ m # post) w
          = (Some (''gomail: could not send email '' @ fmt_d (length pre + 1) @ '': '' @ e),
             (st3, tr1 @ [Call_SkipErrRcpt, Call_Send from to m])))
     \<and> (\<forall>from to st2 r st3.
          getFrom L m = Inr from \<and> getRecipients L m = Inr to
          \<and> Sender_SkipErrRcpt s st1 = (True, st2)
          \<and> Sender_SkippableSend s from to m st2 = ((r, Some e), st3) \<longrightarrow>
        Send L s (pre @ m # post) w
          = (Some (''gomail: could not send email '' @ fmt_d (length pre + 1) @ '': '' @ e),
             (st3, tr1 @ [Call_SkipErrRcpt, Call_SkippableSend from to m])))"
proof -
  let ?hard = "Some (''gomail: could not send email '' @ fmt_d (length pre + 1) @ '': '' @ e)"
  have a: "Send L s (pre @ m # post) w = (?hard, (st1, tr1))"
    if "getFrom L m = Inl e"
    using Send_stops_at [OF assms send_getFrom_fails [OF that]] .
  have b: "Send L s (pre @ m # post) w = (?hard, (st1, tr1))"
    if "getFrom L m = Inr fr" "getRecipients L m = Inl e" for fr
    using Send_stops_at [OF assms send_getRecipients_fails [OF that]] .
  have c: "Send L s (pre @ m # post) w
             = (?hard, (st3, tr1 @ [Call_SkipErrRcpt, Call_Send fr to m]))"
    if "getFrom L m = Inr fr" "getRecipients L m = Inr to"
      "Sender_SkipErrRcpt s st1 = (False, st2)" "Sender_Send s fr to m st2 = (Some e, st3)"
    for fr to st2 st3
    using Send_stops_at [OF assms send_Send_fails [OF that]] .
  have d: "Send L s (pre @ m # post) w
             = (?hard, (st3, tr1 @ [Call_SkipErrRcpt, Call_SkippableSend fr to m]))"
    if "getFrom L m = Inr fr" "getRecipients L m = Inr to"
      "Sender_SkipErrRcpt s st1 = (True, st2)"
      "Sender_SkippableSend s fr to m st2 = ((r, Some e), st3)"
    for fr to st2 r st3
    using Send_stops_at [OF assms send_SkippableSend_fails [OF that]] .
  show ?thesis
    using a b c d by blast
qed

theorem Send_fail_fast_witness:
  "sends_ok example_env accepting [msg_plain] (0, [])
     = Some ([], (1, [Call_SkipErrRcpt,
                      Call_Send ''a@x.com'' [''b@x.com'', ''c@x.com''] msg_plain]))
   \<and> getFrom example_env msg_no_from = Inl MissingSender
   \<and> Send example_env accepting ([msg_plain] @ msg_no_from # [msg_plain, msg_plain]) (0, [])
       = (Some (''gomail: could not send email 2: '' @ MissingSender),
          (1, [Call_SkipErrRcpt, Call_Send ''a@x.com'' [''b@x.com'', ''c@x.com''] msg_plain]))
   \<and> getFrom example_env msg_bad_rcpt = Inr ''a@x.com''
   \<and> getRecipients example_env msg_bad_rcpt
       = Inl (''gomail: invalid address '' @ [CHR 0x22] @ ''Bad <>'' @ [CHR 0x22]
               @ '': mail: invalid string'')
   \<and> Send example_env accepting ([msg_plain] @ msg_bad_rcpt # [msg_plain]) (0, [])
       = (Some (''gomail: could not send email 2: gomail: invalid address '' @ [CHR 0x22]
                 @ ''Bad <>'' @ [CHR 0x22] @ '': mail: invalid string''),
          (1, [Call_SkipErrRcpt, Call_Send ''a@x.com'' [''b@x.com'', ''c@x.com''] msg_plain]))
   \<and> sends_ok example_env refusing [] (0, []) = Some ([], (0, []))
   \<and> Sender_SkipErrRcpt refusing 0 = (False, 0)
   \<and> Sender_Send refusing ''a@x.com'' [''b@x.com'', ''c@x.com''] msg_plain 0 = (Some ''EOF'', 1)
   \<and> Send example_env refusing ([] @ msg_plain # [msg_plain]) (0, [])
       = (Some ''gomail: could not send email 1: EOF'',
          (1, [Call_SkipErrRcpt, Call_Send ''a@x.com'' [''b@x.com'', ''c@x.com''] msg_plain]))
   \<and> sends_ok example_env breaking [msg_plain] (0, [])
       = Some ([rcpt_c],
               (1, [Call_SkipErrRcpt,
                    Call_SkippableSend ''a@x.com'' [''b@x.com'', ''c@x.com''] msg_plain]))
   \<and> Sender_SkipErrRcpt breaking 1 = (True, 1)
   \<and> Sender_SkippableSend breaking ''s@x.com'' [''b@x.com'', ''c@x.com'', ''a@x.com''] msg_sender 1
       = (([rcpt_c], Some ''EOF''), 2)
   \<and> Send example_env breaking ([msg_plain] @ msg_sender # [msg_plain]) (0, [])
       = (Some ''gomail: could not send email 2: EOF'',
          (2, [Call_SkipErrRcpt,
               Call_SkippableSend ''a@x.com'' [''b@x.com'', ''c@x.com''] msg_plain,
               Call_SkipErrRcpt,
               Call_SkippableSend ''s@x.com'' [''b@x.com'', ''c@x.com'', ''a@x.com'']
                 msg_sender]))"
proof -
  have p1: "sends_ok example_env accepting [msg_plain] (0, [])
     = Some ([], (1, [Call_SkipErrRcpt,
                      Call_Send ''a@x.com'' [''b@x.com'', ''c@x.com''] msg_plain]))"
    by (simp add: example_send_accepting)
  have p2: "sends_ok example_env refusing [] (0, []) = Some ([], (0, []))"
    by simp
  have p3: "sends_ok example_env breaking [msg_plain] (0, [])
       = Some ([rcpt_c],
               (1, [Call_SkipErrRcpt,
                    Call_SkippableSend ''a@x.com'' [''b@x.com'', ''c@x.com''] msg_plain]))"
    by (simp add: example_send_breaking)
  note r1 = example_refusing(1) [of 0]
  note r2 = example_refusing(2) [of "''a@x.com''" "[''b@x.com'', ''c@x.com'']" msg_plain 0]
  have b1: "Sender_SkipErrRcpt breaking 1 = (True, 1)"
    and b2: "Sender_SkippableSend breaking ''s@x.com'' [''b@x.com'', ''c@x.com'', ''a@x.com'']
               msg_sender 1 = (([rcpt_c], Some ''EOF''), 2)"
    by (simp_all add: breaking_def)
  have c2: "getFrom example_env msg_bad_rcpt = Inr ''a@x.com''
      \<and> getRecipients example_env msg_bad_rcpt
          = Inl (''gomail: invalid address '' @ [CHR 0x22] @ ''Bad <>'' @ [CHR 0x22]
                  @ '': mail: invalid string'')"
    using example_bad_rcpt by simp
  have c3: "getFrom example_env msg_plain = Inr ''a@x.com''
      \<and> getRecipients example_env msg_plain = Inr [''b@x.com'', ''c@x.com'']
      \<and> Sender_SkipErrRcpt refusing 0 = (False, 0)
      \<and> Sender_Send refusing ''a@x.com'' [''b@x.com'', ''c@x.com''] msg_plain 0 = (Some ''EOF'', 1)"
    using r1 r2 by (simp add: example_getFrom example_getRecipients)
  have c4: "getFrom example_env msg_sender = Inr ''s@x.com''
      \<and> getRecipients example_env msg_sender = Inr [''b@x.com'', ''c@x.com'', ''a@x.com'']
      \<and> Sender_SkipErrRcpt breaking 1 = (True, 1)
      \<and> Sender_SkippableSend breaking ''s@x.com'' [''b@x.com'', ''c@x.com'', ''a@x.com'']
            msg_sender 1 = (([rcpt_c], Some ''EOF''), 2)"
    using b1 b2 by (simp add: example_getFrom example_getRecipients)
  note no_from = Send_fail_fast [OF p1, of msg_no_from MissingSender "[msg_plain, msg_plain]",
      THEN conjunct1, rule_format, OF example_getFrom(3)]
  note bad_rcpt = Send_fail_fast [OF p1, of msg_bad_rcpt _ "[msg_plain]",
      THEN conjunct2, THEN conjunct1, rule_format, OF c2]
  note refused = Send_fail_fast [OF p2, of msg_plain _ "[msg_plain]",
      THEN conjunct2, THEN conjunct2, THEN conjunct1, rule_format, OF c3]
  note broken = Send_fail_fast [OF p3, of msg_sender _ "[msg_plain]",
      THEN conjunct2, THEN conjunct2, THEN conjunct2, rule_format, OF c4]
  have n: "fmt_d (Suc 0) = ''1''" "fmt_d (Suc (Suc 0)) = ''2''"
    by (simp_all add: fmt_d_digit digit_def)
  show ?thesis
    using p1 p2 p3 c2 c3 c4 example_getFrom(3) no_from bad_rcpt refused broken
    by (simp add: n)
qed

text \<open>
  C10. When the messages before \<open>m\<close> go through, with per-recipient errors
  \<open>errs\<close> collected, and \<^verbatim>\<open>SkippableSend\<close> on \<open>m\<close> returns per-recipient errors \<open>r\<close>
  together with a hard error \<open>e\<close>, \<^verbatim>\<open>Send\<close> returns the position-wrapped
  error of \<open>m\<close> built from the position and \<open>e\<close> alone: neither \<open>errs\<close> nor \<open>r\<close>
  is in the result, and the result is no skipped-recipients error.
\<close>

theorem Send_drops_rcpt_errors:
  assumes "sends_ok L s pre w = Some (errs, (st1, tr1))"
    and "getFrom L m = Inr from" and "getRecipients L m = Inr to"
    and "Sender_SkipErrRcpt s st1 = (True, st2)"
    and "Sender_SkippableSend s from to m st2 = ((r, Some e), st3)"
  shows "fst (Send L s (pre @ m # post) w)
           = Some (''gomail: could not send email '' @ fmt_d (length pre + 1) @ '': '' @ e)
         \<and> IsSkipRcptErr (fst (Send L s (pre @ m # post) w)) = Returns False"
proof -
  have "send L s m (st1, tr1)
          = ((r, Some e), (st3, tr1 @ [Call_SkipErrRcpt, Call_SkippableSend from to m]))"
    using assms(2-5) by (simp add: send_def call_SkipErrRcpt_def call_SkippableSend_def)
  then have "fst (Send L s (pre @ m # post) w)
          = Some (''gomail: could not send email '' @ fmt_d (length pre + 1) @ '': '' @ e)"
    using Send_loop_prefix [OF assms(1), of 0 "m # post" "[]"] by (simp add: Send_def)
  then show ?thesis
    using not_skip_prefix [of "fmt_d (length pre + 1) @ '': '' @ e"]
    by (simp add: IsSkipRcptErr_def HasPrefix_prefix)
qed

theorem Send_drops_rcpt_errors_witness:
  "sends_ok example_env breaking [msg_plain] (0, [])
     = Some ([rcpt_c],
             (1, [Call_SkipErrRcpt,
                  Call_SkippableSend ''a@x.com'' [''b@x.com'', ''c@x.com''] msg_plain]))
   \<and> Sender_SkippableSend breaking ''s@x.com'' [''b@x.com'', ''c@x.com'', ''a@x.com''] msg_sender 1
       = (([rcpt_c], Some ''EOF''), 2)
   \<and> fst (Send example_env breaking ([msg_plain] @ msg_sender # [msg_plain]) (0, []))
       = Some ''gomail: could not send email 2: EOF''
   \<and> IsSkipRcptErr (Some ''gomail: could not send email 2: EOF'') = Returns False"
proof -
  have p: "sends_ok example_env breaking [msg_plain] (0, [])
     = Some ([rcpt_c],
             (1, [Call_SkipErrRcpt,
                  Call_SkippableSend ''a@x.com'' [''b@x.com'', ''c@x.com''] msg_plain]))"
    by (simp add: example_send_breaking)
  have q: "Sender_SkipErrRcpt breaking 1 = (True, 1)"
    and r: "Sender_SkippableSend breaking ''s@x.com'' [''b@x.com'', ''c@x.com'', ''a@x.com'']
              msg_sender 1 = (([rcpt_c], Some ''EOF''), 2)"
    by (simp_all add: breaking_def)
  note t = Send_drops_rcpt_errors [OF p example_getFrom(2) example_getRecipients(2) q r,
      of "[msg_plain]"]
  have "fst (Send example_env breaking ([msg_plain] @ msg_sender # [msg_plain]) (0, []))
       = Some ''gomail: could not send email 2: EOF''"
    using t by (simp add: fmt_d_digit digit_def)
  then show ?thesis
    using t p r by simp
qed

subsection \<open>Recognising the skipped-recipients error\<close>

text \<open>
  C2, as the code has it. On a non-nil error \<^verbatim>\<open>IsSkipRcptErr\<close> returns whether
  the text of the error starts with the prefix; on a non-nil error that
  \<^verbatim>\<open>Send\<close> returned it is true exactly when the batch went through, that is
  for the skipped-recipients error, and false for every position-wrapped hard
  error.
\<close>

theorem IsSkipRcptErr_Send:
  assumes "Send L s msg w = (Some text, w')"
  shows "IsSkipRcptErr (Some text) = Returns (sends_ok L s msg w \<noteq> None)
         \<and> (\<forall>t. IsSkipRcptErr (Some t) = Returns (prefix skipRcptErr t))"
proof -
  have general: "IsSkipRcptErr (Some t) = Returns (prefix skipRcptErr t)" for t
    by (simp add: IsSkipRcptErr_def HasPrefix_prefix)
  have "prefix skipRcptErr text = (sends_ok L s msg w \<noteq> None)"
  proof (cases "sends_ok L s msg w")
    case None
    from Send_loop_hard [OF this, of 0 "[]"] assms
    obtain x where "text = ''gomail: could not send email '' @ x"
      by (auto simp: Send_def)
    with None not_skip_prefix [of x] show ?thesis
      by simp
  next
    case (Some p)
    obtain errs w1 where "p = (errs, w1)" by (cases p)
    with Some have ok: "sends_ok L s msg w = Some (errs, w1)" by simp
    have "Send L s msg w = Send_loop L s (length msg) [] errs w1"
      using Send_loop_prefix [OF ok, of 0 "[]" "[]"] by (simp add: Send_def)
    with assms have "text = skipRcptErr @ '': '' @ fmt_v (Rcpts errs) @ '', error: ''
                            @ RcptErrors_Error L errs"
      by (auto split: if_splits)
    with Some show ?thesis by simp
  qed
  with general show ?thesis by simp
qed

theorem IsSkipRcptErr_Send_witness:
  "Send example_env skipping [msg_plain] (0, [])
     = (Some ''gomail: email sent with skipped recipients: [c@x.com], error: c@x.com: 550 no such user; '',
        (1, [Call_SkipErrRcpt,
             Call_SkippableSend ''a@x.com'' [''b@x.com'', ''c@x.com''] msg_plain]))
   \<and> IsSkipRcptErr (Some ''gomail: email sent with skipped recipients: [c@x.com], error: c@x.com: 550 no such user; '')
       = Returns True
   \<and> Send example_env accepting [msg_no_from] (0, [])
       = (Some (''gomail: could not send email 1: '' @ MissingSender), (0, []))
   \<and> IsSkipRcptErr (Some (''gomail: could not send email 1: '' @ MissingSender)) = Returns False"
proof -
  have h1: "Send example_env skipping [msg_plain] (0, [])
     = (Some ''gomail: email sent with skipped recipients: [c@x.com], error: c@x.com: 550 no such user; '',
        (1, [Call_SkipErrRcpt,
             Call_SkippableSend ''a@x.com'' [''b@x.com'', ''c@x.com''] msg_plain]))"
  proof -
    have "Send example_env skipping [msg_plain] (0, [])
       = (Some (skipRcptErr @ '': '' @ fmt_v (Rcpts [rcpt_c]) @ '', error: ''
                  @ RcptErrors_Error example_env [rcpt_c]),
          (1, [Call_SkipErrRcpt,
               Call_SkippableSend ''a@x.com'' [''b@x.com'', ''c@x.com''] msg_plain]))"
      by (simp add: Send_def example_send_skipping)
    then show ?thesis
      by (simp add: skipRcptErr_def fmt_v_def Rcpts_def rcpt_c_def example_env_def
            example_Error_def)
  qed
  have h2: "Send example_env accepting [msg_no_from] (0, [])
       = (Some (''gomail: could not send email 1: '' @ MissingSender), (0, []))"
    by (simp add: Send_def example_send_accepting fmt_d_digit digit_def)
  have o1: "sends_ok example_env skipping [msg_plain] (0, []) \<noteq> None"
    by (simp add: example_send_skipping)
  have o2: "sends_ok example_env accepting [msg_no_from] (0, []) = None"
    by (simp add: example_send_accepting)
  have "IsSkipRcptErr (Some ''gomail: email sent with skipped recipients: [c@x.com], error: c@x.com: 550 no such user; '')
       = Returns True"
    by (simp only: IsSkipRcptErr_Send [OF h1, THEN conjunct1] o1 simp_thms)
  moreover have "IsSkipRcptErr (Some (''gomail: could not send email 1: '' @ MissingSender)) = Returns False"
    by (simp only: IsSkipRcptErr_Send [OF h2, THEN conjunct1] o2 simp_thms)
  ultimately show ?thesis
    using h1 h2 by simp
qed

text \<open>
  C2 as it is written also gives the answer false on nil. The code has no
  answer there: the call of \<^verbatim>\<open>Error()\<close> on a nil error panics.
\<close>

theorem IsSkipRcptErr_nil_counterexample:
  "IsSkipRcptErr None = Panics \<and> IsSkipRcptErr None \<noteq> Returns False"
  by (simp add: IsSkipRcptErr_def)

subsection \<open>Dispatch on the transport\<close>

lemma getRecipients_addresses_distinct:
  "getRecipients_addresses L raw list = Inr to \<Longrightarrow> distinct list \<Longrightarrow> distinct to"
proof (induction raw arbitrary: list)
  case Nil
  then show ?case by simp
next
  case (Cons a raw)
  then show ?case
    by (auto simp: addAddress_eq split: sum.splits if_splits)
qed

lemma getRecipients_distinct: "getRecipients L m = Inr to \<Longrightarrow> distinct to"
  unfolding getRecipients_eq by (erule getRecipients_addresses_distinct) simp

text \<open>
  C3, as the code has it. After the envelope of a message is derived, with
  sender \<open>from\<close> and a duplicate-free recipient list \<open>to\<close>, \<^verbatim>\<open>send\<close> asks
  \<^verbatim>\<open>SkipErrRcpt()\<close> once and then makes one call with \<open>from\<close>, \<open>to\<close> and the
  message. On true the call is \<^verbatim>\<open>SkippableSend\<close>, whose result is returned as
  it is; when that result has no hard error, the batch goes on to the next
  message with the returned per-recipient errors appended to those collected.
  On false the call is \<^verbatim>\<open>Send\<close>; when it returns nil, the batch goes on to
  the next message with the collected errors unchanged, and a batch of this one
  message returns nil.
\<close>

theorem send_dispatch:
  assumes "getFrom L m = Inr from" and "getRecipients L m = Inr to"
  shows "distinct to
    \<and> (\<forall>st1 res st2.
          Sender_SkipErrRcpt s st = (True, st1) \<and> Sender_SkippableSend s from to m st1 = (res, st2) \<longrightarrow>
            send L s m (st, tr)
              = (res, (st2, tr @ [Call_SkipErrRcpt, Call_SkippableSend from to m]))
            \<and> (snd res = None \<longrightarrow>
                 Send_loop L s i (m # msg) rcptErrs (st, tr)
                   = Send_loop L s (i + 1) msg (rcptErrs @ fst res)
                       (st2, tr @ [Call_SkipErrRcpt, Call_SkippableSend from to m])))
    \<and> (\<forall>st1 err st2.
          Sender_SkipErrRcpt s st = (False, st1) \<and> Sender_Send s from to m st1 = (err, st2) \<longrightarrow>
            send L s m (st, tr) = (([], err), (st2, tr @ [Call_SkipErrRcpt, Call_Send from to m]))
            \<and> (err = None \<longrightarrow>
                 Send_loop L s i (m # msg) rcptErrs (st, tr)
                   = Send_loop L s (i + 1) msg rcptErrs
                       (st2, tr @ [Call_SkipErrRcpt, Call_Send from to m])
                 \<and> Send L s [m] (st, tr)
                     = (None, (st2, tr @ [Call_SkipErrRcpt, Call_Send from to m]))))"
proof -
  have d: "distinct to"
    using assms(2) by (rule getRecipients_distinct)
  have skip: "send L s m (st, tr)
                = (res, (st2, tr @ [Call_SkipErrRcpt, Call_SkippableSend from to m]))"
    if "Sender_SkipErrRcpt s st = (True, st1)" "Sender_SkippableSend s from to m st1 = (res, st2)"
    for st1 res st2
    using assms that by (simp add: send_def call_SkipErrRcpt_def call_SkippableSend_def)
  have skip_loop: "Send_loop L s i (m # msg) rcptErrs (st, tr)
                   = Send_loop L s (i + 1) msg (rcptErrs @ fst res)
                       (st2, tr @ [Call_SkipErrRcpt, Call_SkippableSend from to m])"
    if "Sender_SkipErrRcpt s st = (True, st1)" "Sender_SkippableSend s from to m st1 = (res, st2)"
      "snd res = None"
    for st1 res st2
    using skip [OF that(1,2)] that(3) by (cases res) simp
  have plain: "send L s m (st, tr) = (([], err), (st2, tr @ [Call_SkipErrRcpt, Call_Send from to m]))"
    if "Sender_SkipErrRcpt s st = (False, st1)" "Sender_Send s from to m st1 = (err, st2)"
    for st1 err st2
    using assms that by (cases err) (simp_all add: send_def call_SkipErrRcpt_def call_Send_def)
  have plain_loop: "Send_loop L s i (m # msg) rcptErrs (st, tr)
                   = Send_loop L s (i + 1) msg rcptErrs
                       (st2, tr @ [Call_SkipErrRcpt, Call_Send from to m])"
    if "Sender_SkipErrRcpt s st = (False, st1)" "Sender_Send s from to m st1 = (None, st2)"
    for st1 st2
    using plain [OF that] by simp
  have plain_batch: "Send L s [m] (st, tr) = (None, (st2, tr @ [Call_SkipErrRcpt, Call_Send from to m]))"
    if "Sender_SkipErrRcpt s st = (False, st1)" "Sender_Send s from to m st1 = (None, st2)"
    for st1 st2
    using plain [OF that] by (simp add: Send_def)
  show ?thesis
    using d skip skip_loop plain plain_loop plain_batch by blast
qed

theorem send_dispatch_witness:
  "getFrom example_env msg_plain = Inr ''a@x.com''
   \<and> getRecipients example_env msg_plain = Inr [''b@x.com'', ''c@x.com'']
   \<and> Sender_SkipErrRcpt accepting 0 = (False, 0)
   \<and> Sender_Send accepting ''a@x.com'' [''b@x.com'', ''c@x.com''] msg_plain 0 = (None, 1)
   \<and> send example_env accepting msg_plain (0, [])
       = (([], None),
          (1, [Call_SkipErrRcpt, Call_Send ''a@x.com'' [''b@x.com'', ''c@x.com''] msg_plain]))
   \<and> Send example_env accepting [msg_plain] (0, [])
       = (None, (1, [Call_SkipErrRcpt, Call_Send ''a@x.com'' [''b@x.com'', ''c@x.com''] msg_plain]))
   \<and> Sender_SkipErrRcpt skipping 0 = (True, 0)
   \<and> Sender_SkippableSend skipping ''a@x.com'' [''b@x.com'', ''c@x.com''] msg_plain 0
       = (([rcpt_c], None), 1)
   \<and> send example_env skipping msg_plain (0, [])
       = (([rcpt_c], None),
          (1, [Call_SkipErrRcpt,
               Call_SkippableSend ''a@x.com'' [''b@x.com'', ''c@x.com''] msg_plain]))
   \<and> Send_loop example_env skipping 0 [msg_plain] [rcpt_c] (0, [])
       = Send_loop example_env skipping 1 [] [rcpt_c, rcpt_c]
           (1, [Call_SkipErrRcpt,
                Call_SkippableSend ''a@x.com'' [''b@x.com'', ''c@x.com''] msg_plain])"
proof -
  note f = example_getFrom(1)
  note t = example_getRecipients(1)
  have a1: "Sender_SkipErrRcpt accepting 0 = (False, 0)"
    and a2: "Sender_Send accepting ''a@x.com'' [''b@x.com'', ''c@x.com''] msg_plain 0 = (None, 1)"
    by (simp_all add: accepting_def SendFunc_def SendFunc_SkipErrRcpt_def SendFunc_Send_def)
  have s1: "Sender_SkipErrRcpt skipping 0 = (True, 0)"
    and s2: "Sender_SkippableSend skipping ''a@x.com'' [''b@x.com'', ''c@x.com''] msg_plain 0
               = (([rcpt_c], None), 1)"
    by (simp_all add: skipping_def)
  note plain = send_dispatch [OF f t, of accepting 0 "[]" 0 "[]" "[]",
      THEN conjunct2, THEN conjunct2, rule_format, OF conjI [OF a1 a2]]
  note skip = send_dispatch [OF f t, of skipping 0 "[]" 0 "[]" "[rcpt_c]",
      THEN conjunct2, THEN conjunct1, rule_format, OF conjI [OF s1 s2]]
  show ?thesis
    using f t a1 a2 s1 s2 plain skip by simp
qed

text \<open>
  C3 as it is written fails in two places. With the all-or-nothing transport
  and the batch of \<open>msg_plain\<close> and \<open>msg_no_from\<close>, the call of \<^verbatim>\<open>Send\<close> for the
  first message returns nil and the batch returns an error, for the second
  message. With the transport \<open>breaking\<close> and the batch of \<open>msg_plain\<close> and
  \<open>msg_sender\<close>, \<^verbatim>\<open>SkippableSend\<close> for the second message returns a per-recipient
  error beside a hard error, and the loop returns the hard error where going
  on with the per-recipient error appended would return the
  skipped-recipients error.
\<close>

theorem send_dispatch_counterexample:
  "getFrom example_env msg_plain = Inr ''a@x.com''
   \<and> getRecipients example_env msg_plain = Inr [''b@x.com'', ''c@x.com'']
   \<and> Sender_SkipErrRcpt accepting 0 = (False, 0)
   \<and> Sender_Send accepting ''a@x.com'' [''b@x.com'', ''c@x.com''] msg_plain 0 = (None, 1)
   \<and> fst (Send example_env accepting [msg_plain, msg_no_from] (0, []))
       = Some (''gomail: could not send email 2: '' @ MissingSender)
   \<and> getFrom example_env msg_sender = Inr ''s@x.com''
   \<and> getRecipients example_env msg_sender = Inr [''b@x.com'', ''c@x.com'', ''a@x.com'']
   \<and> Sender_SkipErrRcpt breaking 1 = (True, 1)
   \<and> Sender_SkippableSend breaking ''s@x.com'' [''b@x.com'', ''c@x.com'', ''a@x.com''] msg_sender 1
       = (([rcpt_c], Some ''EOF''), 2)
   \<and> fst (Send_loop example_env breaking 1 [msg_sender] [rcpt_c] (1, []))
       = Some ''gomail: could not send email 2: EOF''
   \<and> fst (Send_loop example_env breaking 2 [] ([rcpt_c] @ [rcpt_c]) (2, []))
       = Some ''gomail: email sent with skipped recipients: [c@x.com c@x.com], error: c@x.com: 550 no such user; c@x.com: 550 no such user; ''"
proof -
  have a: "Sender_SkipErrRcpt accepting 0 = (False, 0)"
    "Sender_Send accepting ''a@x.com'' [''b@x.com'', ''c@x.com''] msg_plain 0 = (None, 1)"
    by (simp_all add: accepting_def SendFunc_def SendFunc_SkipErrRcpt_def SendFunc_Send_def)
  have b: "fst (Send example_env accepting [msg_plain, msg_no_from] (0, []))
       = Some (''gomail: could not send email 2: '' @ MissingSender)"
    by (simp add: Send_def example_send_accepting fmt_d_digit digit_def)
  have c: "Sender_SkipErrRcpt breaking 1 = (True, 1)"
    "Sender_SkippableSend breaking ''s@x.com'' [''b@x.com'', ''c@x.com'', ''a@x.com''] msg_sender 1
       = (([rcpt_c], Some ''EOF''), 2)"
    by (simp_all add: breaking_def)
  have d: "fst (Send_loop example_env breaking 1 [msg_sender] [rcpt_c] (1, []))
       = Some ''gomail: could not send email 2: EOF''"
    by (simp add: example_send_breaking fmt_d_digit digit_def)
  have e: "fst (Send_loop example_env breaking 2 [] ([rcpt_c] @ [rcpt_c]) (2, []))
       = Some ''gomail: email sent with skipped recipients: [c@x.com c@x.com], error: c@x.com: 550 no such user; c@x.com: 550 no such user; ''"
    by (simp add: skipRcptErr_def fmt_v_def Rcpts_def rcpt_c_def example_env_def example_Error_def)
  show ?thesis
    using a b c d e example_getFrom(1,2) example_getRecipients by simp
qed

subsection \<open>The function adapter\<close>

text \<open>
  C9. The transport made of a send function \<open>f\<close> answers false to
  \<^verbatim>\<open>SkipErrRcpt()\<close>, leaving the state as it is; its \<^verbatim>\<open>Send\<close> is \<open>f\<close>; its
  \<^verbatim>\<open>SkippableSend\<close> returns no per-recipient error and, as the hard error, what
  \<open>f\<close> returns on the same arguments.
\<close>

theorem SendFunc_adapter:
  "Sender_SkipErrRcpt (SendFunc f) st = (False, st)
   \<and> Sender_Send (SendFunc f) from to msg st = f from to msg st
   \<and> Sender_SkippableSend (SendFunc f) from to msg st
       = (([], fst (f from to msg st)), snd (f from to msg st))"
  by (simp add: SendFunc_def SendFunc_SkipErrRcpt_def SendFunc_Send_def
        SendFunc_SkippableSend_def split: prod.splits)

end
